theory Spec2Isabelle
  imports Main "HOL-Library.Word"
begin

unbundle bit_operations_syntax

section \<open>MCP23xxx pin types (MCP23XXX.h)\<close>

text \<open>The enum class \<open>MCP23xxxPinType\<close>.\<close>

datatype MCP23xxxPinType =
    UNUSED
  | OUTPUT
  | INPUT
  | INPUT_PU
  | SWITCH
  | ROTENC_PHASE_A
  | ROTENC_PHASE_B

text \<open>
  The six \<open>static constexpr bool\<close> members of every specialization of
  \<open>MCP23xxx::Pin\<close>, one function per member, one equation per specialization
  (the primary template serves \<open>UNUSED\<close>).
\<close>

fun s_IODIRBit :: "MCP23xxxPinType \<Rightarrow> bool" where
  "s_IODIRBit UNUSED = False"
| "s_IODIRBit OUTPUT = False"
| "s_IODIRBit INPUT = True"
| "s_IODIRBit INPUT_PU = True"
| "s_IODIRBit SWITCH = True"
| "s_IODIRBit ROTENC_PHASE_A = True"
| "s_IODIRBit ROTENC_PHASE_B = True"

fun s_IPOLBit :: "MCP23xxxPinType \<Rightarrow> bool" where
  "s_IPOLBit UNUSED = False"
| "s_IPOLBit OUTPUT = False"
| "s_IPOLBit INPUT = False"
| "s_IPOLBit INPUT_PU = False"
| "s_IPOLBit SWITCH = True"
| "s_IPOLBit ROTENC_PHASE_A = True"
| "s_IPOLBit ROTENC_PHASE_B = True"

fun s_GPINTENBit :: "MCP23xxxPinType \<Rightarrow> bool" where
  "s_GPINTENBit UNUSED = False"
| "s_GPINTENBit OUTPUT = False"
| "s_GPINTENBit INPUT = False"
| "s_GPINTENBit INPUT_PU = False"
| "s_GPINTENBit SWITCH = True"
| "s_GPINTENBit ROTENC_PHASE_A = True"
| "s_GPINTENBit ROTENC_PHASE_B = False"

fun s_DEFVALBit :: "MCP23xxxPinType \<Rightarrow> bool" where
  "s_DEFVALBit UNUSED = False"
| "s_DEFVALBit OUTPUT = False"
| "s_DEFVALBit INPUT = False"
| "s_DEFVALBit INPUT_PU = False"
| "s_DEFVALBit SWITCH = False"
| "s_DEFVALBit ROTENC_PHASE_A = False"
| "s_DEFVALBit ROTENC_PHASE_B = False"

fun s_INTCONBit :: "MCP23xxxPinType \<Rightarrow> bool" where
  "s_INTCONBit UNUSED = False"
| "s_INTCONBit OUTPUT = False"
| "s_INTCONBit INPUT = False"
| "s_INTCONBit INPUT_PU = False"
| "s_INTCONBit SWITCH = False"
| "s_INTCONBit ROTENC_PHASE_A = False"
| "s_INTCONBit ROTENC_PHASE_B = False"

fun s_GPPUBit :: "MCP23xxxPinType \<Rightarrow> bool" where
  "s_GPPUBit UNUSED = False"
| "s_GPPUBit OUTPUT = False"
| "s_GPPUBit INPUT = False"
| "s_GPPUBit INPUT_PU = True"
| "s_GPPUBit SWITCH = True"
| "s_GPPUBit ROTENC_PHASE_A = True"
| "s_GPPUBit ROTENC_PHASE_B = True"

section \<open>MCP23S17 pin indices and pin configuration (MCP23S17.h)\<close>

text \<open>The enum class \<open>MCP23S17PinIdx\<close> with its enumerator values.\<close>

datatype MCP23S17PinIdx =
    B0 | B1 | B2 | B3 | B4 | B5 | B6 | B7
  | A0 | A1 | A2 | A3 | A4 | A5 | A6 | A7

text \<open>\<open>static_cast<uint8_t>(t_pinIdx)\<close>, read as a number.\<close>

fun pinIdx :: "MCP23S17PinIdx \<Rightarrow> nat" where
  "pinIdx B0 = 0"
| "pinIdx B1 = 1"
| "pinIdx B2 = 2"
| "pinIdx B3 = 3"
| "pinIdx B4 = 4"
| "pinIdx B5 = 5"
| "pinIdx B6 = 6"
| "pinIdx B7 = 7"
| "pinIdx A0 = 8"
| "pinIdx A1 = 9"
| "pinIdx A2 = 10"
| "pinIdx A3 = 11"
| "pinIdx A4 = 12"
| "pinIdx A5 = 13"
| "pinIdx A6 = 14"
| "pinIdx A7 = 15"

text \<open>The struct \<open>MCP23S17PinConfig<t_pinIdx, t_pinType>\<close>.\<close>

record MCP23S17PinConfig =
  s_pinIdx :: MCP23S17PinIdx
  s_pinType :: MCP23xxxPinType

text \<open>
  \<open>PinIdxToPinType<t_pinIdx, CurrentPinConfig, NextPinConfig ...>\<close>: the first
  equation is the specialization terminating at the last configured pin, the second
  the primary template. There is no instantiation for an empty pack, so the pack
  \<open>PinConfig ...\<close> of the driver is modelled as its first entry and the list of
  the remaining ones.
\<close>

fun PinIdxToPinType ::
  "MCP23S17PinIdx \<Rightarrow> MCP23S17PinConfig \<Rightarrow> MCP23S17PinConfig list \<Rightarrow> MCP23xxxPinType" where
  "PinIdxToPinType t_pinIdx CurrentPinConfig [] =
     (if t_pinIdx = s_pinIdx CurrentPinConfig then s_pinType CurrentPinConfig else UNUSED)"
| "PinIdxToPinType t_pinIdx CurrentPinConfig (NextPinConfig # More) =
     (if t_pinIdx = s_pinIdx CurrentPinConfig then s_pinType CurrentPinConfig
      else PinIdxToPinType t_pinIdx NextPinConfig More)"

type_synonym PinConfigPack = "MCP23S17PinConfig \<times> MCP23S17PinConfig list"

text \<open>
  The pin type selecting the specialization behind the alias
  \<open>Pin<t_pinIdx> = MCP23xxx::Pin<PinRegisterAccess<t_pinIdx>,
  PinIdxToPinType<t_pinIdx, PinConfig ...>::value>\<close>.
\<close>

fun Pin_type :: "PinConfigPack \<Rightarrow> MCP23S17PinIdx \<Rightarrow> MCP23xxxPinType" where
  "Pin_type (CurrentPinConfig, More) t_pinIdx = PinIdxToPinType t_pinIdx CurrentPinConfig More"

text \<open>The declared entries of a pack, in declaration order.\<close>

fun entries :: "PinConfigPack \<Rightarrow> MCP23S17PinConfig list" where
  "entries (CurrentPinConfig, More) = CurrentPinConfig # More"

section \<open>Register map, opcodes and control bits (MCP23S17.h)\<close>

definition IODIRA :: "8 word" where "IODIRA = 0x00"
definition IODIRB :: "8 word" where "IODIRB = 0x01"
definition IPOLA :: "8 word" where "IPOLA = 0x02"
definition IPOLB :: "8 word" where "IPOLB = 0x03"
definition GPINTENA :: "8 word" where "GPINTENA = 0x04"
definition GPINTENB :: "8 word" where "GPINTENB = 0x05"
definition DEFVALA :: "8 word" where "DEFVALA = 0x06"
definition DEFVALB :: "8 word" where "DEFVALB = 0x07"
definition INTCONA :: "8 word" where "INTCONA = 0x08"
definition INTCONB :: "8 word" where "INTCONB = 0x09"
definition IOCON :: "8 word" where "IOCON = 0x0A"
definition GPPUA :: "8 word" where "GPPUA = 0x0C"
definition GPPUB :: "8 word" where "GPPUB = 0x0D"
definition INTFA :: "8 word" where "INTFA = 0x0E"
definition INTFB :: "8 word" where "INTFB = 0x0F"
definition INTCAPA :: "8 word" where "INTCAPA = 0x10"
definition INTCAPB :: "8 word" where "INTCAPB = 0x11"
definition GPIOA :: "8 word" where "GPIOA = 0x12"
definition GPIOB :: "8 word" where "GPIOB = 0x13"
definition OLATA :: "8 word" where "OLATA = 0x14"
definition OLATB :: "8 word" where "OLATB = 0x15"

definition OPCODE_WRITE :: "8 word" where "OPCODE_WRITE = 0x40"
definition OPCODE_READ :: "8 word" where "OPCODE_READ = 0x41"

definition INTPOL :: nat where "INTPOL = 1"
definition ODR :: nat where "ODR = 2"
definition HAEN :: nat where "HAEN = 3"
definition DISSLW :: nat where "DISSLW = 4"
definition SEQOP :: nat where "SEQOP = 5"
definition MIRROR :: nat where "MIRROR = 6"
definition BANK :: nat where "BANK = 7"

text \<open>
  The macro \<open>_BV(bit)\<close> is avr-libc's \<open>(1 << (bit))\<close>; it is not defined in the
  repository. It is used at the width of the value it is combined with.
\<close>

definition BV :: "nat \<Rightarrow> 'a::len word" where
  "BV n = push_bit n 1"

section \<open>Register transport primitives (MCP23S17.h)\<close>

text \<open>
  The driver is a template over the collaborators \<open>SPIMaster\<close> (static \<open>put\<close>,
  \<open>get\<close>) and \<open>SSPin\<close> (static \<open>high\<close>, \<open>low\<close>). They are taken as a
  parameter: four operations on the state \<open>'w\<close> of everything outside the driver.
\<close>

record 'w transport =
  SPIMaster_put :: "8 word \<Rightarrow> 'w \<Rightarrow> 'w"
  SPIMaster_get :: "'w \<Rightarrow> 8 word \<times> 'w"
  SSPin_low :: "'w \<Rightarrow> 'w"
  SSPin_high :: "'w \<Rightarrow> 'w"

definition writeRegister :: "'w transport \<Rightarrow> 8 word \<Rightarrow> 8 word \<Rightarrow> 'w \<Rightarrow> 'w" where
  "writeRegister io t_registerAddress val w =
     (let w1 = SSPin_low io w;
          w2 = SPIMaster_put io OPCODE_WRITE w1;
          w3 = SPIMaster_put io t_registerAddress w2;
          w4 = SPIMaster_put io val w3
      in SSPin_high io w4)"

definition readRegister :: "'w transport \<Rightarrow> 8 word \<Rightarrow> 'w \<Rightarrow> 8 word \<times> 'w" where
  "readRegister io t_registerAddress w =
     (let w1 = SSPin_low io w;
          w2 = SPIMaster_put io OPCODE_READ w1;
          w3 = SPIMaster_put io t_registerAddress w2;
          (val, w4) = SPIMaster_get io w3
      in (val, SSPin_high io w4))"

text \<open>
  \<open>put(value >> 8)\<close> and \<open>put(value)\<close> convert the 16-bit operand to the
  \<open>uint8_t\<close> parameter, which keeps the low eight bits.
\<close>

definition writeRegisterPair :: "'w transport \<Rightarrow> 8 word \<Rightarrow> 16 word \<Rightarrow> 'w \<Rightarrow> 'w" where
  "writeRegisterPair io t_registerAddress val w =
     (let w1 = SSPin_low io w;
          w2 = SPIMaster_put io OPCODE_WRITE w1;
          w3 = SPIMaster_put io t_registerAddress w2;
          w4 = SPIMaster_put io (ucast (drop_bit 8 val)) w3;
          w5 = SPIMaster_put io (ucast val) w4
      in SSPin_high io w5)"

definition readRegisterPair :: "'w transport \<Rightarrow> 8 word \<Rightarrow> 'w \<Rightarrow> 16 word \<times> 'w" where
  "readRegisterPair io t_registerAddress w =
     (let w1 = SSPin_low io w;
          w2 = SPIMaster_put io OPCODE_READ w1;
          w3 = SPIMaster_put io t_registerAddress w2;
          (a, w4) = SPIMaster_get io w3;
          (b, w5) = SPIMaster_get io w4;
          valueA = (ucast a :: 16 word);
          valueB = (ucast b :: 16 word)
      in (push_bit 8 valueA + valueB, SSPin_high io w5))"

section \<open>A simulated register file on the bus\<close>

text \<open>
  Modelled from the spec: the device at the other end of the transport is not part of
  the repository. This instance of the transport is the simulated register file of the
  spec's round-trip property, framed as the spec describes a transaction: chip select
  asserted, an opcode byte, a register address byte, then data bytes exchanged with
  adjacent registers, chip select released. Every register is plain storage. The list
  \<open>accesses\<close> records each register read and write the device serves, in order; the
  field \<open>app\<close> stands for the application's own memory, which callbacks may change.
\<close>

datatype bus_access = RegRead "8 word" | RegWrite "8 word" "8 word"

datatype frame = Deselected | AwaitOpcode | AwaitAddress "8 word" | Data "8 word" "8 word"

record 'a sim =
  regs :: "8 word \<Rightarrow> 8 word"
  frame :: frame
  accesses :: "bus_access list"
  app :: 'a

definition sim_low :: "'a sim \<Rightarrow> 'a sim" where
  "sim_low w = w\<lparr>frame := AwaitOpcode\<rparr>"

definition sim_high :: "'a sim \<Rightarrow> 'a sim" where
  "sim_high w = w\<lparr>frame := Deselected\<rparr>"

definition sim_put :: "8 word \<Rightarrow> 'a sim \<Rightarrow> 'a sim" where
  "sim_put b w =
     (case frame w of
        Deselected \<Rightarrow> w
      | AwaitOpcode \<Rightarrow> w\<lparr>frame := AwaitAddress b\<rparr>
      | AwaitAddress opc \<Rightarrow> w\<lparr>frame := Data opc b\<rparr>
      | Data opc a \<Rightarrow>
          if opc = OPCODE_WRITE
          then w\<lparr>regs := (regs w)(a := b), frame := Data opc (a + 1),
                 accesses := accesses w @ [RegWrite a b]\<rparr>
          else w)"

definition sim_get :: "'a sim \<Rightarrow> 8 word \<times> 'a sim" where
  "sim_get w =
     (case frame w of
        Data opc a \<Rightarrow>
          if opc = OPCODE_READ
          then (regs w a, w\<lparr>frame := Data opc (a + 1), accesses := accesses w @ [RegRead a]\<rparr>)
          else (0, w)
      | _ \<Rightarrow> (0, w))"

definition sim_io :: "'a sim transport" where
  "sim_io = \<lparr>SPIMaster_put = sim_put, SPIMaster_get = sim_get,
            SSPin_low = sim_low, SSPin_high = sim_high\<rparr>"

text \<open>
  Modelled from the spec: the same register file with the one side effect of the device
  that the driver relies on, "reading the capture register clears/re-arms the interrupt"
  (the source says "Reading the INTCAP register re-arms the interrupt"). A read of the
  capture register of a port clears the interrupt-flag register of that port; nothing
  else differs from the plain register file, and no new transition ever sets a flag.
\<close>

definition clear_on_capture :: "8 word \<Rightarrow> (8 word \<Rightarrow> 8 word) \<Rightarrow> 8 word \<Rightarrow> 8 word" where
  "clear_on_capture a r =
     (if a = INTCAPA then r(INTFA := 0) else if a = INTCAPB then r(INTFB := 0) else r)"

definition chip_get :: "'a sim \<Rightarrow> 8 word \<times> 'a sim" where
  "chip_get w =
     (case frame w of
        Data opc a \<Rightarrow>
          if opc = OPCODE_READ
          then (regs w a,
                w\<lparr>regs := clear_on_capture a (regs w), frame := Data opc (a + 1),
                  accesses := accesses w @ [RegRead a]\<rparr>)
          else (0, w)
      | _ \<Rightarrow> (0, w))"

definition chip_io :: "'a sim transport" where
  "chip_io = \<lparr>SPIMaster_put = sim_put, SPIMaster_get = chip_get,
             SSPin_low = sim_low, SSPin_high = sim_high\<rparr>"


section \<open>Register-level pin access (MCP23S17.h, PinRegisterAccess)\<close>

text \<open>
  The default template argument \<open>t_portA = (static_cast<uint8_t>(t_pinIdx) & 0b1000)\<close>
  selecting the specialization for port A or port B.
\<close>

definition t_portA :: "MCP23S17PinIdx \<Rightarrow> bool" where
  "t_portA t_pinIdx = ((of_nat (pinIdx t_pinIdx) :: 8 word) AND 0b1000 \<noteq> 0)"

text \<open>\<open>getBitmask()\<close>, the same in both specializations.\<close>

definition getBitmask :: "MCP23S17PinIdx \<Rightarrow> 8 word" where
  "getBitmask t_pinIdx = BV (unat ((of_nat (pinIdx t_pinIdx) :: 8 word) AND 0b111))"

text \<open>
  \<open>readINTCAP()\<close>, \<open>readGPIO()\<close> and the output-latch write of the two
  specializations. The write is named \<open>writeOLATA\<close> in the specialization for port A
  and \<open>writeOLAT\<close> in the one for port B. The result of \<open>&\<close> is converted to
  \<open>bool\<close>: true when it is not zero.
\<close>

definition readINTCAP_portA :: "'w transport \<Rightarrow> MCP23S17PinIdx \<Rightarrow> 'w \<Rightarrow> bool \<times> 'w" where
  "readINTCAP_portA io t_pinIdx w =
     (let (val, w') = readRegister io INTCAPA w in (val AND getBitmask t_pinIdx \<noteq> 0, w'))"

definition readGPIO_portA :: "'w transport \<Rightarrow> MCP23S17PinIdx \<Rightarrow> 'w \<Rightarrow> bool \<times> 'w" where
  "readGPIO_portA io t_pinIdx w =
     (let (val, w') = readRegister io GPIOA w in (val AND getBitmask t_pinIdx \<noteq> 0, w'))"

definition writeOLATA :: "'w transport \<Rightarrow> MCP23S17PinIdx \<Rightarrow> bool \<Rightarrow> 'w \<Rightarrow> 'w" where
  "writeOLATA io t_pinIdx bValue w =
     (if bValue
      then (let (val, w') = readRegister io OLATA w
            in writeRegister io OLATA (val OR getBitmask t_pinIdx) w')
      else (let (val, w') = readRegister io OLATA w
            in writeRegister io OLATA (val AND NOT (getBitmask t_pinIdx)) w'))"

definition readINTCAP_portB :: "'w transport \<Rightarrow> MCP23S17PinIdx \<Rightarrow> 'w \<Rightarrow> bool \<times> 'w" where
  "readINTCAP_portB io t_pinIdx w =
     (let (val, w') = readRegister io INTCAPB w in (val AND getBitmask t_pinIdx \<noteq> 0, w'))"

definition readGPIO_portB :: "'w transport \<Rightarrow> MCP23S17PinIdx \<Rightarrow> 'w \<Rightarrow> bool \<times> 'w" where
  "readGPIO_portB io t_pinIdx w =
     (let (val, w') = readRegister io GPIOB w in (val AND getBitmask t_pinIdx \<noteq> 0, w'))"

definition writeOLAT :: "'w transport \<Rightarrow> MCP23S17PinIdx \<Rightarrow> bool \<Rightarrow> 'w \<Rightarrow> 'w" where
  "writeOLAT io t_pinIdx bValue w =
     (if bValue
      then (let (val, w') = readRegister io OLATB w
            in writeRegister io OLATB (val OR getBitmask t_pinIdx) w')
      else (let (val, w') = readRegister io OLATB w
            in writeRegister io OLATB (val AND NOT (getBitmask t_pinIdx)) w'))"

text \<open>\<open>PinRegisterAccess<t_pinIdx>::readINTCAP()\<close> with the specialization selected.\<close>

definition readINTCAP :: "'w transport \<Rightarrow> MCP23S17PinIdx \<Rightarrow> 'w \<Rightarrow> bool \<times> 'w" where
  "readINTCAP io t_pinIdx w =
     (if t_portA t_pinIdx then readINTCAP_portA io t_pinIdx w else readINTCAP_portB io t_pinIdx w)"

section \<open>Logical pin drivers (MCP23XXX.h, MCP23xxx::Pin)\<close>

text \<open>
  The state the driver itself owns. \<open>world\<close> is everything outside it (the bus and the
  application), \<open>s_callback\<close> holds the static member \<open>s_callback\<close> of the pin
  classes: a static member of \<open>Pin<PinRegisterAccess<t_pinIdx>, t_PinType>\<close>, so one
  object per pin index of a device. A callback is a \<open>function<void()>\<close>, modelled
  as a change of the world. \<open>notified\<close> is a history variable, read by no code: the
  pins whose \<open>notify()\<close> has been called by \<open>onInterrupt()\<close>, in call order.
\<close>

record 'w driver =
  world :: 'w
  s_callback :: "MCP23S17PinIdx \<Rightarrow> 'w \<Rightarrow> 'w"
  notified :: "MCP23S17PinIdx list"

text \<open>
  \<open>notify()\<close> of each specialization; the pin index stands for the template argument
  \<open>PinOnDevice = PinRegisterAccess<t_pinIdx>\<close>.
\<close>

fun Pin_notify :: "'w transport \<Rightarrow> MCP23xxxPinType \<Rightarrow> MCP23S17PinIdx \<Rightarrow> 'w driver \<Rightarrow> 'w driver" where
  "Pin_notify io UNUSED t_pinIdx d = d"
| "Pin_notify io OUTPUT t_pinIdx d = d"
| "Pin_notify io INPUT t_pinIdx d = d"
| "Pin_notify io INPUT_PU t_pinIdx d = d"
| "Pin_notify io SWITCH t_pinIdx d =
     (let (captured, w') = readINTCAP io t_pinIdx (world d)
      in if captured then d\<lparr>world := s_callback d t_pinIdx w'\<rparr> else d\<lparr>world := w'\<rparr>)"
| "Pin_notify io ROTENC_PHASE_A t_pinIdx d =
     (let (captured, w') = readINTCAP io t_pinIdx (world d)
      in if captured then d\<lparr>world := s_callback d t_pinIdx w'\<rparr> else d\<lparr>world := w'\<rparr>)"
| "Pin_notify io ROTENC_PHASE_B t_pinIdx d = d"

text \<open>
  Calls of the other members through a pin handle. A specialization that has no such
  public member makes the call ill-formed: the result is \<open>None\<close>.
  \<open>registerCallback\<close> exists for SWITCH and ROTENC_PHASE_A, \<open>read\<close> for
  ROTENC_PHASE_B. No specialization declares a member that writes the pin: the
  register-level accessors are protected members of a private base, and none of the
  specializations calls the output-latch one.
\<close>

fun Pin_registerCallback ::
  "MCP23xxxPinType \<Rightarrow> MCP23S17PinIdx \<Rightarrow> ('w \<Rightarrow> 'w) \<Rightarrow> 'w driver \<Rightarrow> 'w driver option" where
  "Pin_registerCallback SWITCH t_pinIdx callback d =
     Some (d\<lparr>s_callback := (s_callback d)(t_pinIdx := callback)\<rparr>)"
| "Pin_registerCallback ROTENC_PHASE_A t_pinIdx callback d =
     Some (d\<lparr>s_callback := (s_callback d)(t_pinIdx := callback)\<rparr>)"
| "Pin_registerCallback UNUSED t_pinIdx callback d = None"
| "Pin_registerCallback OUTPUT t_pinIdx callback d = None"
| "Pin_registerCallback INPUT t_pinIdx callback d = None"
| "Pin_registerCallback INPUT_PU t_pinIdx callback d = None"
| "Pin_registerCallback ROTENC_PHASE_B t_pinIdx callback d = None"

fun Pin_read :: "'w transport \<Rightarrow> MCP23xxxPinType \<Rightarrow> MCP23S17PinIdx \<Rightarrow> 'w \<Rightarrow> (bool \<times> 'w) option" where
  "Pin_read io ROTENC_PHASE_B t_pinIdx w = Some (readINTCAP io t_pinIdx w)"
| "Pin_read io UNUSED t_pinIdx w = None"
| "Pin_read io OUTPUT t_pinIdx w = None"
| "Pin_read io INPUT t_pinIdx w = None"
| "Pin_read io INPUT_PU t_pinIdx w = None"
| "Pin_read io SWITCH t_pinIdx w = None"
| "Pin_read io ROTENC_PHASE_A t_pinIdx w = None"

section \<open>The device (MCP23S17.h, class MCP23S17)\<close>

text \<open>\<open>Pin<t_pinIdx>::notify()\<close> as \<open>onInterrupt()\<close> calls it, entered in the history.\<close>

definition notify :: "'w transport \<Rightarrow> PinConfigPack \<Rightarrow> MCP23S17PinIdx \<Rightarrow> 'w driver \<Rightarrow> 'w driver" where
  "notify io cfg t_pinIdx d =
     Pin_notify io (Pin_type cfg t_pinIdx) t_pinIdx (d\<lparr>notified := notified d @ [t_pinIdx]\<rparr>)"

text \<open>One \<open>if (INTF & _BV(static_cast<uint16_t>(idx))) { Pin<idx>::notify(); }\<close>.\<close>

definition dispatch ::
  "'w transport \<Rightarrow> PinConfigPack \<Rightarrow> 16 word \<Rightarrow> MCP23S17PinIdx \<Rightarrow> 'w driver \<Rightarrow> 'w driver" where
  "dispatch io cfg INTF t_pinIdx d =
     (if INTF AND BV (pinIdx t_pinIdx) \<noteq> 0 then notify io cfg t_pinIdx d else d)"

definition onInterrupt :: "'w transport \<Rightarrow> PinConfigPack \<Rightarrow> 'w driver \<Rightarrow> 'w driver" where
  "onInterrupt io cfg d =
     (let (INTF, w) = readRegisterPair io INTFA (world d);
          d00 = d\<lparr>world := w\<rparr>;
          d01 = dispatch io cfg INTF B0 d00;
          d02 = dispatch io cfg INTF B1 d01;
          d03 = dispatch io cfg INTF B2 d02;
          d04 = dispatch io cfg INTF B3 d03;
          d05 = dispatch io cfg INTF B4 d04;
          d06 = dispatch io cfg INTF B5 d05;
          d07 = dispatch io cfg INTF B6 d06;
          d08 = dispatch io cfg INTF B7 d07;
          d09 = dispatch io cfg INTF A0 d08;
          d10 = dispatch io cfg INTF A1 d09;
          d11 = dispatch io cfg INTF A2 d10;
          d12 = dispatch io cfg INTF A3 d11;
          d13 = dispatch io cfg INTF A4 d12;
          d14 = dispatch io cfg INTF A5 d13;
          d15 = dispatch io cfg INTF A6 d14
      in dispatch io cfg INTF A7 d15)"

definition reArmInterrupt :: "'w transport \<Rightarrow> 'w \<Rightarrow> 'w" where
  "reArmInterrupt io w = snd (readRegisterPair io INTCAPA w)"

text \<open>\<open>checkConfig()\<close> has an empty body.\<close>

definition checkConfig :: "PinConfigPack \<Rightarrow> unit" where
  "checkConfig cfg = ()"

text \<open>
  The sixteen-term sum that \<open>init()\<close> passes to each \<open>writeRegisterPair\<close>; the
  argument \<open>bit_of\<close> is the static member summed (\<open>s_IODIRBit\<close>, ...).
\<close>

definition registerImage :: "(MCP23xxxPinType \<Rightarrow> bool) \<Rightarrow> PinConfigPack \<Rightarrow> 16 word" where
  "registerImage bit_of cfg =
     (if bit_of (Pin_type cfg B0) then BV (pinIdx B0) else 0) +
     (if bit_of (Pin_type cfg B1) then BV (pinIdx B1) else 0) +
     (if bit_of (Pin_type cfg B2) then BV (pinIdx B2) else 0) +
     (if bit_of (Pin_type cfg B3) then BV (pinIdx B3) else 0) +
     (if bit_of (Pin_type cfg B4) then BV (pinIdx B4) else 0) +
     (if bit_of (Pin_type cfg B5) then BV (pinIdx B5) else 0) +
     (if bit_of (Pin_type cfg B6) then BV (pinIdx B6) else 0) +
     (if bit_of (Pin_type cfg B7) then BV (pinIdx B7) else 0) +
     (if bit_of (Pin_type cfg A0) then BV (pinIdx A0) else 0) +
     (if bit_of (Pin_type cfg A1) then BV (pinIdx A1) else 0) +
     (if bit_of (Pin_type cfg A2) then BV (pinIdx A2) else 0) +
     (if bit_of (Pin_type cfg A3) then BV (pinIdx A3) else 0) +
     (if bit_of (Pin_type cfg A4) then BV (pinIdx A4) else 0) +
     (if bit_of (Pin_type cfg A5) then BV (pinIdx A5) else 0) +
     (if bit_of (Pin_type cfg A6) then BV (pinIdx A6) else 0) +
     (if bit_of (Pin_type cfg A7) then BV (pinIdx A7) else 0)"

definition init :: "'w transport \<Rightarrow> PinConfigPack \<Rightarrow> bool \<Rightarrow> 'w \<Rightarrow> 'w" where
  "init io cfg intActiveHigh w =
     (let u = checkConfig cfg;
          valueIOCON = BV SEQOP OR BV MIRROR OR (if intActiveHigh then BV INTPOL else 0);
          w1 = writeRegister io IOCON valueIOCON w;
          w2 = writeRegisterPair io IODIRA (registerImage s_IODIRBit cfg) w1;
          w3 = writeRegisterPair io IPOLA (registerImage s_IPOLBit cfg) w2;
          w4 = writeRegisterPair io GPINTENA (registerImage s_GPINTENBit cfg) w3;
          w5 = writeRegisterPair io DEFVALA (registerImage s_DEFVALBit cfg) w4;
          w6 = writeRegisterPair io INTCONA (registerImage s_INTCONBit cfg) w5;
          w7 = writeRegisterPair io GPPUA (registerImage s_GPPUBit cfg) w6
      in reArmInterrupt io w7)"

section \<open>Auxiliary notions for stating the properties\<close>

text \<open>The sixteen pins in the order in which \<open>onInterrupt()\<close> tests them.\<close>

definition pin_order :: "MCP23S17PinIdx list" where
  "pin_order = [B0, B1, B2, B3, B4, B5, B6, B7, A0, A1, A2, A3, A4, A5, A6, A7]"

text \<open>The pin types whose \<open>notify()\<close> reads the capture register.\<close>

definition interrupt_type :: "MCP23xxxPinType \<Rightarrow> bool" where
  "interrupt_type t = (t = SWITCH \<or> t = ROTENC_PHASE_A)"

text \<open>The capture register, the flag register and the output latch of the port a pin is on.\<close>

definition INTCAP_of :: "MCP23S17PinIdx \<Rightarrow> 8 word" where
  "INTCAP_of p = (if t_portA p then INTCAPA else INTCAPB)"

definition INTF_of :: "MCP23S17PinIdx \<Rightarrow> 8 word" where
  "INTF_of p = (if t_portA p then INTFA else INTFB)"

definition OLAT_of :: "MCP23S17PinIdx \<Rightarrow> 8 word" where
  "OLAT_of p = (if t_portA p then OLATA else OLATB)"

text \<open>
  The output-latch write of \<open>PinRegisterAccess<t_pinIdx>\<close> with the specialization
  selected: \<open>writeOLATA\<close> for a pin on port A, \<open>writeOLAT\<close> for a pin on port B.
\<close>

definition latch_write :: "'w transport \<Rightarrow> MCP23S17PinIdx \<Rightarrow> bool \<Rightarrow> 'w \<Rightarrow> 'w" where
  "latch_write io p bValue w =
     (if t_portA p then writeOLATA io p bValue w else writeOLAT io p bValue w)"

text \<open>The pins that a dispatch over the flag word \<open>INTF\<close> notifies and that read a capture.\<close>

definition capturing_pins :: "PinConfigPack \<Rightarrow> 16 word \<Rightarrow> MCP23S17PinIdx list" where
  "capturing_pins cfg INTF =
     filter (\<lambda>p. bit INTF (pinIdx p) \<and> interrupt_type (Pin_type cfg p)) pin_order"

section \<open>Example configurations and device states\<close>

definition zero_regs :: "8 word \<Rightarrow> 8 word" where
  "zero_regs a = 0"

definition idle_sim :: "(8 word \<Rightarrow> 8 word) \<Rightarrow> nat sim" where
  "idle_sim r = \<lparr>regs = r, frame = Deselected, accesses = [], app = 0\<rparr>"

text \<open>A callback that counts its invocations in the application memory.\<close>

definition count_event :: "nat sim \<Rightarrow> nat sim" where
  "count_event w = w\<lparr>app := app w + 1\<rparr>"

definition counting_driver :: "nat sim \<Rightarrow> nat sim driver" where
  "counting_driver w = \<lparr>world = w, s_callback = (\<lambda>p. count_event), notified = []\<rparr>"

definition two_switches :: PinConfigPack where
  "two_switches =
     (\<lparr>s_pinIdx = B0, s_pinType = SWITCH\<rparr>, [\<lparr>s_pinIdx = B1, s_pinType = SWITCH\<rparr>])"

definition switch_and_encoder :: PinConfigPack where
  "switch_and_encoder =
     (\<lparr>s_pinIdx = A2, s_pinType = SWITCH\<rparr>,
      [\<lparr>s_pinIdx = B1, s_pinType = ROTENC_PHASE_A\<rparr>,
       \<lparr>s_pinIdx = B2, s_pinType = ROTENC_PHASE_B\<rparr>])"

definition duplicate_B0 :: PinConfigPack where
  "duplicate_B0 =
     (\<lparr>s_pinIdx = B0, s_pinType = SWITCH\<rparr>, [\<lparr>s_pinIdx = B0, s_pinType = OUTPUT\<rparr>])"

definition output_A3 :: PinConfigPack where
  "output_A3 = (\<lparr>s_pinIdx = A3, s_pinType = OUTPUT\<rparr>, [])"

text \<open>Flags and captures of B0 and B1 set.\<close>

definition regs_B0_B1 :: "8 word \<Rightarrow> 8 word" where
  "regs_B0_B1 = zero_regs(INTFB := 0x03, INTCAPB := 0x03)"

text \<open>Flags of A2 and B1 set; captures of A2, B1 and B2 set.\<close>

definition regs_A2_B1 :: "8 word \<Rightarrow> 8 word" where
  "regs_A2_B1 = zero_regs(INTFA := 0x04, INTFB := 0x02, INTCAPA := 0x04, INTCAPB := 0x06)"

text \<open>A callback that clears the count, and the driver state once it is registered for B0.\<close>

definition reset_count :: "nat sim \<Rightarrow> nat sim" where
  "reset_count w = w\<lparr>app := 0\<rparr>"

definition reset_registered :: "nat sim \<Rightarrow> nat sim driver" where
  "reset_registered w =
     \<lparr>world = w, s_callback = (\<lambda>p. if p = B0 then reset_count else count_event), notified = []\<rparr>"

text \<open>Output latch of port A holding \<open>0x81\<close>.\<close>

definition regs_latch :: "8 word \<Rightarrow> 8 word" where
  "regs_latch = zero_regs(OLATA := 0x81)"

lemmas register_defs =
  IODIRA_def IODIRB_def IPOLA_def IPOLB_def GPINTENA_def GPINTENB_def DEFVALA_def
  DEFVALB_def INTCONA_def INTCONB_def IOCON_def GPPUA_def GPPUB_def INTFA_def INTFB_def
  INTCAPA_def INTCAPB_def GPIOA_def GPIOB_def OLATA_def OLATB_def

section \<open>Transactions against the simulated register file\<close>

lemma sim_writeRegister:
  "writeRegister sim_io a v w =
     w\<lparr>regs := (regs w)(a := v), frame := Deselected, accesses := accesses w @ [RegWrite a v]\<rparr>"
  by (simp add: writeRegister_def sim_io_def sim_low_def sim_put_def sim_high_def Let_def)

lemma sim_readRegister:
  "readRegister sim_io a w =
     (regs w a, w\<lparr>frame := Deselected, accesses := accesses w @ [RegRead a]\<rparr>)"
  by (simp add: readRegister_def sim_io_def sim_low_def sim_put_def sim_get_def sim_high_def
      Let_def OPCODE_READ_def OPCODE_WRITE_def)

lemma sim_writeRegisterPair:
  "writeRegisterPair sim_io a v w =
     w\<lparr>regs := (regs w)(a := ucast (drop_bit 8 v), a + 1 := ucast v), frame := Deselected,
       accesses := accesses w @ [RegWrite a (ucast (drop_bit 8 v)), RegWrite (a + 1) (ucast v)]\<rparr>"
  by (simp add: writeRegisterPair_def sim_io_def sim_low_def sim_put_def sim_high_def Let_def)

lemma sim_readRegisterPair:
  "readRegisterPair sim_io a w =
     (push_bit 8 (ucast (regs w a)) + ucast (regs w (a + 1)),
      w\<lparr>frame := Deselected, accesses := accesses w @ [RegRead a, RegRead (a + 1)]\<rparr>)"
  by (simp add: readRegisterPair_def sim_io_def sim_low_def sim_put_def sim_get_def sim_high_def
      Let_def OPCODE_READ_def OPCODE_WRITE_def)

lemma join_bytes: "push_bit 8 (ucast (ucast (drop_bit 8 v) :: 8 word)) + ucast (ucast v :: 8 word) = (v :: 16 word)"
proof -
  have disj: "push_bit 8 (ucast (ucast (drop_bit 8 v) :: 8 word)) + ucast (ucast v :: 8 word)
      = push_bit 8 (ucast (ucast (drop_bit 8 v) :: 8 word)) OR (ucast (ucast v :: 8 word) :: 16 word)"
    by (rule disjunctive_add) (auto simp add: bit_simps)
  show ?thesis
    unfolding disj by (rule bit_word_eqI) (auto simp add: bit_simps)
qed

section \<open>Bit masks and pin indices\<close>

lemma flag_test: "((x :: 'a::len word) AND BV n \<noteq> 0) = bit x n"
  unfolding BV_def
  by (metis and_exp_eq_0_iff_not_bit push_bit_of_1)

lemma bit_BV: "bit (BV k :: 'a::len word) n = (n = k \<and> k < LENGTH('a))"
  by (auto simp add: BV_def bit_simps)

lemma getBitmask_BV: "getBitmask p = BV (pinIdx p mod 8)"
  by (cases p) (simp_all add: getBitmask_def)

lemma pinIdx_less: "pinIdx p < 16"
  by (cases p) simp_all

lemma pinIdx_inject: "pinIdx p = pinIdx q \<Longrightarrow> p = q"
  by (cases p; cases q) simp_all

lemma distinct_pin_order: "distinct pin_order"
  by (simp add: pin_order_def)

lemma set_pin_order: "p \<in> set pin_order"
  by (cases p) (simp_all add: pin_order_def)

lemma map_pinIdx_pin_order: "map pinIdx pin_order = [0..<16]"
  by (simp add: pin_order_def upt_rec)

lemma INTCAP_of_not_GPIO: "INTCAP_of p \<noteq> GPIOA \<and> INTCAP_of p \<noteq> GPIOB"
  by (simp add: INTCAP_of_def register_defs)

section \<open>Pin accessors against the simulated register file\<close>

lemma sim_readINTCAP:
  "readINTCAP sim_io p w =
     (bit (regs w (INTCAP_of p)) (pinIdx p mod 8),
      w\<lparr>frame := Deselected, accesses := accesses w @ [RegRead (INTCAP_of p)]\<rparr>)"
  by (simp add: readINTCAP_def readINTCAP_portA_def readINTCAP_portB_def INTCAP_of_def
      sim_readRegister getBitmask_BV flag_test)

lemma sim_latch_write:
  "latch_write sim_io p b w =
     w\<lparr>regs := (regs w)(OLAT_of p :=
          (if b then regs w (OLAT_of p) OR BV (pinIdx p mod 8)
           else regs w (OLAT_of p) AND NOT (BV (pinIdx p mod 8)))),
       frame := Deselected,
       accesses := accesses w @ [RegRead (OLAT_of p),
          RegWrite (OLAT_of p)
            (if b then regs w (OLAT_of p) OR BV (pinIdx p mod 8)
             else regs w (OLAT_of p) AND NOT (BV (pinIdx p mod 8)))]\<rparr>"
  by (simp add: latch_write_def writeOLATA_def writeOLAT_def OLAT_of_def sim_readRegister
      sim_writeRegister getBitmask_BV)

lemma sim_latch_write_frame:
  "bit (regs (latch_write sim_io p b w) (OLAT_of p)) (pinIdx p mod 8) = b \<and>
   (\<forall>n. n \<noteq> pinIdx p mod 8 \<longrightarrow>
      bit (regs (latch_write sim_io p b w) (OLAT_of p)) n = bit (regs w (OLAT_of p)) n) \<and>
   (\<forall>a. a \<noteq> OLAT_of p \<longrightarrow> regs (latch_write sim_io p b w) a = regs w a) \<and>
   accesses (latch_write sim_io p b w) =
     accesses w @ [RegRead (OLAT_of p),
                   RegWrite (OLAT_of p) (regs (latch_write sim_io p b w) (OLAT_of p))]"
  by (auto simp add: sim_latch_write bit_simps bit_BV dest: bit_imp_le_length)

section \<open>Interrupt dispatch\<close>

lemma onInterrupt_fold:
  "onInterrupt io cfg d =
     (let (INTF, w) = readRegisterPair io INTFA (world d)
      in fold (dispatch io cfg INTF) pin_order (d\<lparr>world := w\<rparr>))"
  by (simp add: onInterrupt_def pin_order_def Let_def split: prod.splits)

lemma Pin_notify_notified: "notified (Pin_notify io t p d) = notified d"
  by (cases t) (simp_all add: Let_def split: prod.splits)

lemma Pin_notify_s_callback: "s_callback (Pin_notify io t p d) = s_callback d"
  by (cases t) (simp_all add: Let_def split: prod.splits)

lemma notify_notified: "notified (notify io cfg p d) = notified d @ [p]"
  by (simp add: notify_def Pin_notify_notified)

lemma notify_s_callback: "s_callback (notify io cfg p d) = s_callback d"
  by (simp add: notify_def Pin_notify_s_callback)

lemma dispatch_notified:
  "notified (dispatch io cfg INTF p d) = notified d @ (if bit INTF (pinIdx p) then [p] else [])"
  by (simp add: dispatch_def flag_test notify_notified)

lemma dispatch_s_callback: "s_callback (dispatch io cfg INTF p d) = s_callback d"
  by (simp add: dispatch_def notify_s_callback)

lemma fold_dispatch_notified:
  "notified (fold (dispatch io cfg INTF) ps d) = notified d @ filter (\<lambda>p. bit INTF (pinIdx p)) ps"
  by (induction ps arbitrary: d) (simp_all add: dispatch_notified)

lemma set_bits_count:
  "length (filter (\<lambda>p. bit (INTF :: 16 word) (pinIdx p)) pin_order) = card {n. bit INTF n}"
proof -
  have "{n. bit INTF n} = set (filter (bit INTF) [0..<16])"
    by (auto dest: bit_imp_le_length)
  then have "card {n. bit INTF n} = card (set (filter (bit INTF) [0..<16]))"
    by (simp only:)
  also have "\<dots> = length (filter (bit INTF) [0..<16])"
    by (rule distinct_card) simp
  also have "\<dots> = length (filter (bit INTF) (map pinIdx pin_order))"
    by (simp only: map_pinIdx_pin_order)
  also have "\<dots> = length (filter (\<lambda>p. bit INTF (pinIdx p)) pin_order)"
    by (simp add: filter_map comp_def)
  finally show ?thesis by simp
qed

lemma Pin_notify_idle:
  "\<not> interrupt_type t \<Longrightarrow> world (Pin_notify io t p d) = world d"
  by (cases t) (simp_all add: interrupt_type_def)

lemma dispatch_idle:
  "\<not> (bit INTF (pinIdx p) \<and> interrupt_type (Pin_type cfg p)) \<Longrightarrow>
   world (dispatch io cfg INTF p d) = world d"
  by (auto simp add: dispatch_def notify_def flag_test Pin_notify_idle)

lemma fold_dispatch_idle:
  "filter (\<lambda>p. bit INTF (pinIdx p) \<and> interrupt_type (Pin_type cfg p)) ps = [] \<Longrightarrow>
   world (fold (dispatch io cfg INTF) ps d) = world d"
proof (induction ps arbitrary: d)
  case Nil
  then show ?case by simp
next
  case (Cons p ps)
  from Cons.prems have p: "\<not> (bit INTF (pinIdx p) \<and> interrupt_type (Pin_type cfg p))"
    and ps: "filter (\<lambda>p. bit INTF (pinIdx p) \<and> interrupt_type (Pin_type cfg p)) ps = []"
    by (auto split: if_splits)
  show ?case
    by (simp add: Cons.IH [OF ps] dispatch_idle [OF p])
qed

lemma onInterrupt_idle:
  assumes "capturing_pins cfg (fst (readRegisterPair io INTFA (world d))) = []"
  shows "world (onInterrupt io cfg d) = snd (readRegisterPair io INTFA (world d))"
proof -
  obtain INTF w where pair: "readRegisterPair io INTFA (world d) = (INTF, w)"
    by (cases "readRegisterPair io INTFA (world d)")
  have "filter (\<lambda>p. bit INTF (pinIdx p) \<and> interrupt_type (Pin_type cfg p)) pin_order = []"
    using assms by (simp add: capturing_pins_def pair)
  then have "world (fold (dispatch io cfg INTF) pin_order (d\<lparr>world := w\<rparr>)) = w"
    by (simp add: fold_dispatch_idle)
  then show ?thesis
    by (simp add: onInterrupt_fold pair)
qed

lemma sim_Pin_notify_accesses:
  assumes "\<And>q w. accesses (s_callback d q w) = accesses w"
  shows "accesses (world (Pin_notify sim_io t p d)) =
     accesses (world d) @ (if interrupt_type t then [RegRead (INTCAP_of p)] else [])"
  using assms by (cases t) (simp_all add: interrupt_type_def sim_readINTCAP)

lemma sim_dispatch_accesses:
  assumes "\<And>q w. accesses (s_callback d q w) = accesses w"
  shows "accesses (world (dispatch sim_io cfg INTF p d)) =
     accesses (world d) @
       (if bit INTF (pinIdx p) \<and> interrupt_type (Pin_type cfg p) then [RegRead (INTCAP_of p)] else [])"
  using assms by (simp add: dispatch_def notify_def flag_test sim_Pin_notify_accesses)

lemma sim_fold_dispatch_accesses:
  assumes "\<And>q w. accesses (s_callback d q w) = accesses w"
  shows "accesses (world (fold (dispatch sim_io cfg INTF) ps d)) =
     accesses (world d) @
       map (\<lambda>p. RegRead (INTCAP_of p))
         (filter (\<lambda>p. bit INTF (pinIdx p) \<and> interrupt_type (Pin_type cfg p)) ps)"
  using assms
proof (induction ps arbitrary: d)
  case Nil
  then show ?case by simp
next
  case (Cons p ps)
  have cb: "\<And>q w. accesses (s_callback (dispatch sim_io cfg INTF p d) q w) = accesses w"
    by (simp add: dispatch_s_callback Cons.prems)
  show ?case
    by (simp add: Cons.IH [OF cb] sim_dispatch_accesses [OF Cons.prems])
qed

lemma sim_onInterrupt_accesses:
  assumes "\<And>q w. accesses (s_callback d q w) = accesses w"
  shows "accesses (world (onInterrupt sim_io cfg d)) =
     accesses (world d) @ [RegRead INTFA, RegRead INTFB] @
       map (\<lambda>p. RegRead (INTCAP_of p))
         (capturing_pins cfg (fst (readRegisterPair sim_io INTFA (world d))))"
proof -
  let ?w = "(world d)\<lparr>frame := Deselected, accesses := accesses (world d) @ [RegRead INTFA, RegRead INTFB]\<rparr>"
  have cb: "\<And>q w. accesses (s_callback (d\<lparr>world := ?w\<rparr>) q w) = accesses w"
    by (simp add: assms)
  have pair: "readRegisterPair sim_io INTFA (world d) = (fst (readRegisterPair sim_io INTFA (world d)), ?w)"
    by (simp add: sim_readRegisterPair INTFA_def INTFB_def)
  show ?thesis
    unfolding onInterrupt_fold capturing_pins_def
    by (subst pair, subst pair) (simp add: sim_fold_dispatch_accesses [OF cb])
qed

section \<open>Configuration resolution and register images\<close>

lemma registerImage_sum_list:
  "registerImage bit_of cfg =
     sum_list (map (\<lambda>p. if bit_of (Pin_type cfg p) then BV (pinIdx p) else 0) pin_order)"
  by (simp add: registerImage_def pin_order_def add.assoc)

lemma bit_sum_BV:
  "distinct ps \<Longrightarrow>
   bit (sum_list (map (\<lambda>p. if P p then BV (pinIdx p) else 0) ps) :: 16 word) n =
     (\<exists>p \<in> set ps. P p \<and> pinIdx p = n)"
proof (induction ps arbitrary: n)
  case Nil
  then show ?case by simp
next
  case (Cons p ps)
  let ?x = "(if P p then BV (pinIdx p) else 0) :: 16 word"
  let ?r = "sum_list (map (\<lambda>p. if P p then BV (pinIdx p) else 0) ps) :: 16 word"
  have IH: "\<And>m. bit ?r m = (\<exists>q \<in> set ps. P q \<and> pinIdx q = m)"
    using Cons by simp
  have "?x + ?r = ?x OR ?r"
  proof (rule disjunctive_add)
    fix m
    show "\<not> bit ?x m \<or> \<not> bit ?r m"
      using Cons.prems by (auto simp add: bit_BV IH dest: pinIdx_inject)
  qed
  then show ?case
    using pinIdx_less [of p] by (auto simp add: bit_or_iff bit_BV IH)
qed

lemma bit_registerImage:
  "bit (registerImage bit_of cfg) (pinIdx p) = bit_of (Pin_type cfg p)"
  by (auto simp add: registerImage_sum_list bit_sum_BV distinct_pin_order set_pin_order
      dest: pinIdx_inject)

lemma PinIdxToPinType_unconfigured:
  "p \<notin> s_pinIdx ` set (c # cs) \<Longrightarrow> PinIdxToPinType p c cs = UNUSED"
  by (induction cs arbitrary: c) auto

lemma Pin_type_unconfigured:
  "p \<notin> s_pinIdx ` set (entries cfg) \<Longrightarrow> Pin_type cfg p = UNUSED"
  by (cases cfg) (simp add: PinIdxToPinType_unconfigured del: set_simps image_insert)

section \<open>Callback registry\<close>

lemma notify_update_s_callback:
  "f p = s_callback d p \<Longrightarrow>
   notify io cfg p (d\<lparr>s_callback := f\<rparr>) = (notify io cfg p d)\<lparr>s_callback := f\<rparr>"
  by (cases "Pin_type cfg p") (simp_all add: notify_def Let_def split: prod.splits)

lemma Pin_registerCallback_Some:
  "Pin_registerCallback t p callback d = Some d' \<Longrightarrow>
   interrupt_type t \<and> d' = d\<lparr>s_callback := (s_callback d)(p := callback)\<rparr>"
  by (cases t) (auto simp add: interrupt_type_def)

section \<open>Evaluation on the example states\<close>

lemma t_portA_simps:
  "t_portA B0 = False" "t_portA B1 = False" "t_portA B2 = False" "t_portA B3 = False"
  "t_portA B4 = False" "t_portA B5 = False" "t_portA B6 = False" "t_portA B7 = False"
  "t_portA A0 = True" "t_portA A1 = True" "t_portA A2 = True" "t_portA A3 = True"
  "t_portA A4 = True" "t_portA A5 = True" "t_portA A6 = True" "t_portA A7 = True"
  by (simp_all add: t_portA_def)

lemma sim_reArmInterrupt:
  "reArmInterrupt sim_io w =
     w\<lparr>frame := Deselected, accesses := accesses w @ [RegRead INTCAPA, RegRead INTCAPB]\<rparr>"
  by (simp add: reArmInterrupt_def sim_readRegisterPair INTCAPA_def INTCAPB_def)

lemma counting_driver_quiet:
  "accesses (s_callback (counting_driver w0) q w) = accesses w"
  by (simp add: counting_driver_def count_event_def)

lemmas sim_eval =
  onInterrupt_fold pin_order_def dispatch_def notify_def flag_test sim_readINTCAP
  sim_readRegisterPair sim_writeRegisterPair sim_writeRegister sim_reArmInterrupt
  counting_driver_def count_event_def idle_sim_def zero_regs_def INTCAP_of_def
  t_portA_simps register_defs

section \<open>Dispatch against the device that clears its flags on a capture read\<close>

lemma chip_readRegister:
  "readRegister chip_io a w =
     (regs w a, w\<lparr>regs := clear_on_capture a (regs w), frame := Deselected,
                 accesses := accesses w @ [RegRead a]\<rparr>)"
  by (simp add: readRegister_def chip_io_def sim_low_def sim_put_def chip_get_def sim_high_def
      Let_def OPCODE_READ_def OPCODE_WRITE_def)

lemma chip_read_INTF:
  "readRegisterPair chip_io INTFA w =
     (push_bit 8 (ucast (regs w INTFA)) + ucast (regs w INTFB),
      w\<lparr>frame := Deselected, accesses := accesses w @ [RegRead INTFA, RegRead INTFB]\<rparr>)"
  by (simp add: readRegisterPair_def chip_io_def sim_low_def sim_put_def chip_get_def sim_high_def
      Let_def OPCODE_READ_def OPCODE_WRITE_def clear_on_capture_def register_defs)

lemma chip_readINTCAP:
  "readINTCAP chip_io p w =
     (bit (regs w (INTCAP_of p)) (pinIdx p mod 8),
      w\<lparr>regs := (regs w)(INTF_of p := 0), frame := Deselected,
        accesses := accesses w @ [RegRead (INTCAP_of p)]\<rparr>)"
  by (simp add: readINTCAP_def readINTCAP_portA_def readINTCAP_portB_def INTCAP_of_def INTF_of_def
      chip_readRegister getBitmask_BV flag_test clear_on_capture_def register_defs)

lemma bit_flag_word:
  "bit (push_bit 8 (ucast (a :: 8 word)) + ucast (b :: 8 word) :: 16 word) n =
     (if n < 8 then bit b n else bit a (n - 8))"
proof -
  have "push_bit 8 (ucast a) + (ucast b :: 16 word) = push_bit 8 (ucast a) OR ucast b"
    by (rule disjunctive_add) (auto simp add: bit_simps dest: bit_imp_le_length)
  then show ?thesis
    by (auto simp add: bit_simps dest: bit_imp_le_length)
qed

lemma flag_word_zero:
  "(push_bit 8 (ucast (a :: 8 word)) + ucast (b :: 8 word) :: 16 word) = 0 \<longleftrightarrow> a = 0 \<and> b = 0"
proof
  assume z: "(push_bit 8 (ucast a) + ucast b :: 16 word) = 0"
  have "\<And>n. \<not> bit (push_bit 8 (ucast a) + ucast b :: 16 word) n"
    by (simp add: z)
  then have all: "\<And>n. \<not> (if n < 8 then bit b n else bit a (n - 8))"
    by (simp add: bit_flag_word)
  have "b = 0"
  proof (rule bit_word_eqI)
    fix n assume "n < LENGTH(8)"
    then show "bit b n = bit (0 :: 8 word) n" using all [of n] by simp
  qed
  moreover have "a = 0"
  proof (rule bit_word_eqI)
    fix n assume "n < LENGTH(8)"
    then show "bit a n = bit (0 :: 8 word) n" using all [of "n + 8"] by simp
  qed
  ultimately show "a = 0 \<and> b = 0" by simp
next
  assume "a = 0 \<and> b = 0"
  then show "(push_bit 8 (ucast a) + ucast b :: 16 word) = 0" by simp
qed

lemma gpinten_interrupt_type:
  "bit (registerImage s_GPINTENBit cfg) (pinIdx p) = interrupt_type (Pin_type cfg p)"
  by (cases "Pin_type cfg p") (simp_all add: bit_registerImage interrupt_type_def)

lemma INTF_of_cases: "INTF_of p = INTFA \<or> INTF_of p = INTFB"
  by (simp add: INTF_of_def)


lemma chip_Pin_notify_keeps_clear:
  assumes cb: "\<And>q w. regs w r = 0 \<Longrightarrow> regs (s_callback d q w) r = 0"
    and z: "regs (world d) r = 0"
  shows "regs (world (Pin_notify chip_io t p d)) r = 0"
  using z by (cases t) (simp_all add: chip_readINTCAP cb)

lemma chip_Pin_notify_clears:
  assumes cb: "\<And>q w. regs w (INTF_of p) = 0 \<Longrightarrow> regs (s_callback d q w) (INTF_of p) = 0"
    and t: "interrupt_type t"
  shows "regs (world (Pin_notify chip_io t p d)) (INTF_of p) = 0"
  using t by (cases t) (simp_all add: chip_readINTCAP interrupt_type_def cb)

lemma chip_dispatch_keeps_clear:
  assumes cb: "\<And>q w. regs w r = 0 \<Longrightarrow> regs (s_callback d q w) r = 0"
    and z: "regs (world d) r = 0"
  shows "regs (world (dispatch chip_io cfg INTF p d)) r = 0"
  using chip_Pin_notify_keeps_clear [of r "d\<lparr>notified := notified d @ [p]\<rparr>" "Pin_type cfg p" p] cb z
  by (simp add: dispatch_def notify_def)

lemma chip_dispatch_clears:
  assumes cb: "\<And>q w. regs w (INTF_of p) = 0 \<Longrightarrow> regs (s_callback d q w) (INTF_of p) = 0"
    and f: "bit INTF (pinIdx p)" and t: "interrupt_type (Pin_type cfg p)"
  shows "regs (world (dispatch chip_io cfg INTF p d)) (INTF_of p) = 0"
  using chip_Pin_notify_clears [of p "d\<lparr>notified := notified d @ [p]\<rparr>" "Pin_type cfg p"] cb f t
  by (simp add: dispatch_def notify_def flag_test)

lemma chip_fold_dispatch_keeps_clear:
  assumes cb: "\<And>q w. regs w r = 0 \<Longrightarrow> regs (s_callback d q w) r = 0"
    and z: "regs (world d) r = 0"
  shows "regs (world (fold (dispatch chip_io cfg INTF) ps d)) r = 0"
  using cb z
proof (induction ps arbitrary: d)
  case Nil
  then show ?case by simp
next
  case (Cons p ps)
  have cb': "\<And>q w. regs w r = 0 \<Longrightarrow> regs (s_callback (dispatch chip_io cfg INTF p d) q w) r = 0"
    by (simp add: dispatch_s_callback Cons.prems(1))
  have z': "regs (world (dispatch chip_io cfg INTF p d)) r = 0"
    by (rule chip_dispatch_keeps_clear [OF Cons.prems(1) Cons.prems(2)])
  show ?case
    using Cons.IH [OF cb' z'] by simp
qed

lemma chip_fold_dispatch_clears:
  assumes cb: "\<And>q w. regs w r = 0 \<Longrightarrow> regs (s_callback d q w) r = 0"
    and p: "p \<in> set ps" "INTF_of p = r" "bit INTF (pinIdx p)" "interrupt_type (Pin_type cfg p)"
  shows "regs (world (fold (dispatch chip_io cfg INTF) ps d)) r = 0"
  using cb p(1)
proof (induction ps arbitrary: d)
  case Nil
  then show ?case by simp
next
  case (Cons q ps)
  have cb': "\<And>q' w. regs w r = 0 \<Longrightarrow> regs (s_callback (dispatch chip_io cfg INTF q d) q' w) r = 0"
    by (simp add: dispatch_s_callback Cons.prems(1))
  show ?case
  proof (cases "p = q")
    case True
    have "regs (world (dispatch chip_io cfg INTF p d)) (INTF_of p) = 0"
      by (rule chip_dispatch_clears) (simp_all add: p Cons.prems(1))
    then have z': "regs (world (dispatch chip_io cfg INTF q d)) r = 0"
      using True p(2) by simp
    show ?thesis
      using chip_fold_dispatch_keeps_clear [of r "dispatch chip_io cfg INTF q d" cfg INTF ps, OF cb' z']
      by simp
  next
    case False
    then have "p \<in> set ps" using Cons.prems(2) by simp
    from Cons.IH [OF cb' this] show ?thesis by simp
  qed
qed


lemma chip_Pin_notify_accesses:
  assumes "\<And>q w. accesses (s_callback d q w) = accesses w"
  shows "accesses (world (Pin_notify chip_io t p d)) =
     accesses (world d) @ (if interrupt_type t then [RegRead (INTCAP_of p)] else [])"
  using assms by (cases t) (simp_all add: interrupt_type_def chip_readINTCAP)

lemma chip_dispatch_accesses:
  assumes "\<And>q w. accesses (s_callback d q w) = accesses w"
  shows "accesses (world (dispatch chip_io cfg INTF p d)) =
     accesses (world d) @
       (if bit INTF (pinIdx p) \<and> interrupt_type (Pin_type cfg p) then [RegRead (INTCAP_of p)] else [])"
  using assms by (simp add: dispatch_def notify_def flag_test chip_Pin_notify_accesses)

lemma chip_fold_dispatch_accesses:
  assumes "\<And>q w. accesses (s_callback d q w) = accesses w"
  shows "accesses (world (fold (dispatch chip_io cfg INTF) ps d)) =
     accesses (world d) @
       map (\<lambda>p. RegRead (INTCAP_of p))
         (filter (\<lambda>p. bit INTF (pinIdx p) \<and> interrupt_type (Pin_type cfg p)) ps)"
  using assms
proof (induction ps arbitrary: d)
  case Nil
  then show ?case by simp
next
  case (Cons p ps)
  have cb: "\<And>q w. accesses (s_callback (dispatch chip_io cfg INTF p d) q w) = accesses w"
    by (simp add: dispatch_s_callback Cons.prems)
  show ?case
    by (simp add: Cons.IH [OF cb] chip_dispatch_accesses [OF Cons.prems])
qed

lemma chip_onInterrupt_accesses:
  assumes "\<And>q w. accesses (s_callback d q w) = accesses w"
  shows "accesses (world (onInterrupt chip_io cfg d)) =
     accesses (world d) @ [RegRead INTFA, RegRead INTFB] @
       map (\<lambda>p. RegRead (INTCAP_of p))
         (capturing_pins cfg (fst (readRegisterPair chip_io INTFA (world d))))"
proof -
  let ?w = "(world d)\<lparr>frame := Deselected, accesses := accesses (world d) @ [RegRead INTFA, RegRead INTFB]\<rparr>"
  have cb: "\<And>q w. accesses (s_callback (d\<lparr>world := ?w\<rparr>) q w) = accesses w"
    by (simp add: assms)
  have pair: "readRegisterPair chip_io INTFA (world d) = (fst (readRegisterPair chip_io INTFA (world d)), ?w)"
    by (simp add: chip_read_INTF)
  show ?thesis
    unfolding onInterrupt_fold capturing_pins_def
    by (subst pair, subst pair) (simp add: chip_fold_dispatch_accesses [OF cb])
qed

lemma pin_of_index:
  assumes "n < 16"
  obtains p where "pinIdx p = n"
proof -
  have "n \<in> set (map pinIdx pin_order)"
    using assms by (simp add: map_pinIdx_pin_order)
  then show thesis
    using that by auto
qed

lemma t_portA_iff: "t_portA p = (8 \<le> pinIdx p)"
  by (cases p) (simp_all add: t_portA_simps)

lemma pin_of_high_bit:
  assumes "n < 8"
  obtains p where "pinIdx p = n + 8" "INTF_of p = INTFA"
proof -
  from assms have "n + 8 < 16" by simp
  then obtain p where "pinIdx p = n + 8"
    by (rule pin_of_index)
  moreover from this have "INTF_of p = INTFA"
    by (simp add: INTF_of_def t_portA_iff)
  ultimately show thesis
    by (rule that)
qed

lemma pin_of_low_bit:
  assumes "n < 8"
  obtains p where "pinIdx p = n" "INTF_of p = INTFB"
proof -
  from assms have "n < 16" by simp
  then obtain p where "pinIdx p = n"
    by (rule pin_of_index)
  moreover from this assms have "INTF_of p = INTFB"
    by (simp add: INTF_of_def t_portA_iff)
  ultimately show thesis
    by (rule that)
qed

lemma enabled_flag_interrupt_type:
  assumes en: "(INTF :: 16 word) AND NOT (registerImage s_GPINTENBit cfg) = 0"
    and f: "bit INTF (pinIdx p)"
  shows "interrupt_type (Pin_type cfg p)"
proof -
  have "\<not> bit (INTF AND NOT (registerImage s_GPINTENBit cfg)) (pinIdx p)"
    by (simp add: en)
  then have "bit (registerImage s_GPINTENBit cfg) (pinIdx p)"
    using f pinIdx_less [of p] by (simp add: bit_simps)
  then show ?thesis
    by (simp add: gpinten_interrupt_type)
qed

lemma nonzero_byte_has_bit:
  assumes "(a :: 8 word) \<noteq> 0"
  obtains n where "n < 8" "bit a n"
proof -
  have "\<exists>n. bit a n"
  proof (rule ccontr)
    assume "\<not> (\<exists>n. bit a n)"
    then have "a = 0" by (intro bit_word_eqI) simp
    with assms show False by simp
  qed
  then obtain n where n: "bit a n" ..
  then have "n < 8" using bit_imp_le_length [OF n] by simp
  with n show thesis using that by blast
qed

lemma chip_fold_clears_port:
  assumes cb: "\<And>q w. regs w r = 0 \<Longrightarrow> regs (s_callback d q w) r = 0"
    and en: "(INTF :: 16 word) AND NOT (registerImage s_GPINTENBit cfg) = 0"
    and some: "regs (world d) r \<noteq> 0 \<Longrightarrow> \<exists>p. INTF_of p = r \<and> bit INTF (pinIdx p)"
  shows "regs (world (fold (dispatch chip_io cfg INTF) pin_order d)) r = 0"
proof (cases "regs (world d) r = 0")
  case True
  show ?thesis by (rule chip_fold_dispatch_keeps_clear [OF cb True])
next
  case False
  from some [OF False] obtain p where p: "INTF_of p = r" "bit INTF (pinIdx p)" by blast
  have t: "interrupt_type (Pin_type cfg p)"
    by (rule enabled_flag_interrupt_type [OF en p(2)])
  show ?thesis
    by (rule chip_fold_dispatch_clears [OF cb set_pin_order p(1) p(2) t])
qed

lemma chip_onInterrupt_rearms:
  assumes cbA: "\<And>q w. regs w INTFA = 0 \<Longrightarrow> regs (s_callback d q w) INTFA = 0"
    and cbB: "\<And>q w. regs w INTFB = 0 \<Longrightarrow> regs (s_callback d q w) INTFB = 0"
    and en: "fst (readRegisterPair chip_io INTFA (world d)) AND NOT (registerImage s_GPINTENBit cfg) = 0"
  shows "fst (readRegisterPair chip_io INTFA (world (onInterrupt chip_io cfg d))) = 0"
proof -
  let ?INTF = "push_bit 8 (ucast (regs (world d) INTFA)) + ucast (regs (world d) INTFB) :: 16 word"
  let ?w = "(world d)\<lparr>frame := Deselected, accesses := accesses (world d) @ [RegRead INTFA, RegRead INTFB]\<rparr>"
  let ?d = "d\<lparr>world := ?w\<rparr>"
  have en': "?INTF AND NOT (registerImage s_GPINTENBit cfg) = 0"
    using en by (simp add: chip_read_INTF)
  have run: "onInterrupt chip_io cfg d = fold (dispatch chip_io cfg ?INTF) pin_order ?d"
    by (simp add: onInterrupt_fold chip_read_INTF)
  have cbA': "\<And>q w. regs w INTFA = 0 \<Longrightarrow> regs (s_callback ?d q w) INTFA = 0"
    by (simp add: cbA)
  have cbB': "\<And>q w. regs w INTFB = 0 \<Longrightarrow> regs (s_callback ?d q w) INTFB = 0"
    by (simp add: cbB)
  have someA: "regs (world ?d) INTFA \<noteq> 0 \<Longrightarrow> \<exists>p. INTF_of p = INTFA \<and> bit ?INTF (pinIdx p)"
  proof -
    assume "regs (world ?d) INTFA \<noteq> 0"
    then have "regs (world d) INTFA \<noteq> 0" by simp
    then obtain n where n: "n < 8" "bit (regs (world d) INTFA) n"
      by (rule nonzero_byte_has_bit)
    from n(1) obtain p where p: "pinIdx p = n + 8" "INTF_of p = INTFA"
      by (rule pin_of_high_bit)
    have "bit ?INTF (pinIdx p)"
      using n by (simp add: bit_flag_word p(1))
    with p(2) show ?thesis by blast
  qed
  have someB: "regs (world ?d) INTFB \<noteq> 0 \<Longrightarrow> \<exists>p. INTF_of p = INTFB \<and> bit ?INTF (pinIdx p)"
  proof -
    assume "regs (world ?d) INTFB \<noteq> 0"
    then have "regs (world d) INTFB \<noteq> 0" by simp
    then obtain n where n: "n < 8" "bit (regs (world d) INTFB) n"
      by (rule nonzero_byte_has_bit)
    from n(1) obtain p where p: "pinIdx p = n" "INTF_of p = INTFB"
      by (rule pin_of_low_bit)
    have "bit ?INTF (pinIdx p)"
      using n by (simp add: bit_flag_word p(1))
    with p(2) show ?thesis by blast
  qed
  have zA: "regs (world (onInterrupt chip_io cfg d)) INTFA = 0"
    unfolding run by (rule chip_fold_clears_port [OF cbA' en' someA])
  have zB: "regs (world (onInterrupt chip_io cfg d)) INTFB = 0"
    unfolding run by (rule chip_fold_clears_port [OF cbB' en' someB])
  show ?thesis
    by (simp add: chip_read_INTF zA zB)
qed

lemmas chip_read_INTF_num = chip_read_INTF [unfolded INTFA_def INTFB_def]

section \<open>Capture reads during dispatch\<close>

text \<open>
  C1, as stated, fails: with B0 and B1 configured as switches and both flagged, one call
  of \<open>onInterrupt()\<close> never reads INTCAPA, so the capture register pair is not fetched,
  and it reads INTCAPB twice, once inside the \<open>notify()\<close> of each of the two pins.
\<close>

theorem capture_read_per_pin_counterexample:
  "accesses (world (onInterrupt sim_io two_switches (counting_driver (idle_sim regs_B0_B1)))) =
     [RegRead INTFA, RegRead INTFB, RegRead INTCAPB, RegRead INTCAPB] \<and>
   count_list (accesses (world (onInterrupt sim_io two_switches
      (counting_driver (idle_sim regs_B0_B1))))) (RegRead INTCAPA) = 0 \<and>
   count_list (accesses (world (onInterrupt sim_io two_switches
      (counting_driver (idle_sim regs_B0_B1))))) (RegRead INTCAPB) = 2"
  by (simp add: sim_eval regs_B0_B1_def two_switches_def)

text \<open>
  C1, amended: during a call of \<open>onInterrupt()\<close> the capture register pair is not
  fetched as a pair. After the read of the flag register pair, every flagged pin of type
  SWITCH or ROTENC_PHASE_A issues, inside its own \<open>notify()\<close> and in dispatch order, one
  fresh single-register read of the capture register of its port (INTCAPA for A0..A7,
  INTCAPB for B0..B7), and \<open>notify()\<close> decides on the bit of that read whether the
  callback runs. These are all the register accesses of the call, provided the callbacks
  themselves make none.
\<close>

theorem capture_read_per_flagged_pin:
  assumes "\<And>q w. accesses (s_callback d q w) = accesses w"
  shows "accesses (world (onInterrupt sim_io cfg d)) =
      accesses (world d) @ [RegRead INTFA, RegRead INTFB] @
        map (\<lambda>p. RegRead (INTCAP_of p))
          (capturing_pins cfg (fst (readRegisterPair sim_io INTFA (world d)))) \<and>
    (interrupt_type (Pin_type cfg p) \<longrightarrow>
       world (notify sim_io cfg p d) =
         (if bit (regs (world d) (INTCAP_of p)) (pinIdx p mod 8)
          then s_callback d p
            ((world d)\<lparr>frame := Deselected,
               accesses := accesses (world d) @ [RegRead (INTCAP_of p)]\<rparr>)
          else (world d)\<lparr>frame := Deselected,
               accesses := accesses (world d) @ [RegRead (INTCAP_of p)]\<rparr>))"
proof
  show "accesses (world (onInterrupt sim_io cfg d)) =
      accesses (world d) @ [RegRead INTFA, RegRead INTFB] @
        map (\<lambda>p. RegRead (INTCAP_of p))
          (capturing_pins cfg (fst (readRegisterPair sim_io INTFA (world d))))"
    using assms by (rule sim_onInterrupt_accesses)
  show "interrupt_type (Pin_type cfg p) \<longrightarrow>
       world (notify sim_io cfg p d) =
         (if bit (regs (world d) (INTCAP_of p)) (pinIdx p mod 8)
          then s_callback d p
            ((world d)\<lparr>frame := Deselected,
               accesses := accesses (world d) @ [RegRead (INTCAP_of p)]\<rparr>)
          else (world d)\<lparr>frame := Deselected,
               accesses := accesses (world d) @ [RegRead (INTCAP_of p)]\<rparr>)"
    by (auto simp add: interrupt_type_def notify_def sim_readINTCAP)
qed

text \<open>
  Witness for C1, amended: A2 is a switch, B1 an encoder phase A, B2 an encoder phase B,
  the flags of B1 and A2 are set and the counting callbacks make no register access.
\<close>

theorem capture_read_per_flagged_pin_witness:
  "accesses (world (onInterrupt sim_io switch_and_encoder (counting_driver (idle_sim regs_A2_B1)))) =
     [RegRead INTFA, RegRead INTFB, RegRead INTCAPB, RegRead INTCAPA] \<and>
   interrupt_type (Pin_type switch_and_encoder B1) \<and>
   accesses (world (notify sim_io switch_and_encoder B1 (counting_driver (idle_sim regs_A2_B1)))) =
     [RegRead INTCAPB] \<and>
   app (world (notify sim_io switch_and_encoder B1 (counting_driver (idle_sim regs_A2_B1)))) = 1"
proof -
  have ty: "interrupt_type (Pin_type switch_and_encoder B1)"
    by (simp add: switch_and_encoder_def interrupt_type_def)
  have cap: "bit (regs (world (counting_driver (idle_sim regs_A2_B1))) (INTCAP_of B1)) (pinIdx B1 mod 8)"
    by (simp add: counting_driver_def idle_sim_def regs_A2_B1_def INTCAP_of_def t_portA_simps
        register_defs)
  have flags: "fst (readRegisterPair sim_io INTFA (world (counting_driver (idle_sim regs_A2_B1)))) = 0x0402"
    by (simp add: sim_eval regs_A2_B1_def)
  have pins: "capturing_pins switch_and_encoder 0x0402 = [B1, A2]"
    by (simp add: capturing_pins_def pin_order_def switch_and_encoder_def interrupt_type_def)
  show ?thesis
    using capture_read_per_flagged_pin [of "counting_driver (idle_sim regs_A2_B1)" switch_and_encoder B1,
        OF counting_driver_quiet] ty cap
    unfolding flags pins
    by (simp add: counting_driver_def count_event_def idle_sim_def INTCAP_of_def t_portA_simps)
qed

section \<open>Re-arming\<close>

text \<open>
  C2, as stated, fails: with no flag set, a call of \<open>onInterrupt()\<close> reads the flag
  register pair and returns; it reads neither INTCAPA nor INTCAPB, against the plain
  register file and against the device that clears its flags on a capture read alike.
\<close>

theorem no_rearm_counterexample:
  "accesses (world (onInterrupt sim_io two_switches (counting_driver (idle_sim zero_regs)))) =
     [RegRead INTFA, RegRead INTFB] \<and>
   count_list (accesses (world (onInterrupt sim_io two_switches
      (counting_driver (idle_sim zero_regs))))) (RegRead INTCAPA) = 0 \<and>
   count_list (accesses (world (onInterrupt sim_io two_switches
      (counting_driver (idle_sim zero_regs))))) (RegRead INTCAPB) = 0 \<and>
   accesses (world (onInterrupt chip_io two_switches (counting_driver (idle_sim zero_regs)))) =
     [RegRead INTFA, RegRead INTFB]"
  by (simp add: sim_eval chip_read_INTF_num two_switches_def)

text \<open>
  C2, amended: \<open>onInterrupt()\<close> makes no capture-register read of its own; the
  capture registers are read by \<open>notify()\<close> of the flagged SWITCH and ROTENC_PHASE_A
  pins. After every call in which the set flags belong to pins whose interrupt
  \<open>init()\<close> enables (the GPINTEN image, that is the SWITCH and ROTENC_PHASE_A pins),
  these reads have re-armed the interrupt: on the device that clears the flags of a port
  when its capture register is read, a subsequent read of the interrupt-flag register
  pair returns zero, provided the callbacks do not raise a flag that reads zero. The
  register accesses of the call are the flag read followed by one capture read per
  flagged SWITCH or ROTENC_PHASE_A pin, provided the callbacks make none. In a call in
  which no SWITCH or ROTENC_PHASE_A pin's flag is set, the flag read is all that
  happens: no capture register is read.
\<close>

theorem rearm_by_capture_reads:
  "((\<forall>q w. regs w INTFA = 0 \<longrightarrow> regs (s_callback d q w) INTFA = 0) \<and>
    (\<forall>q w. regs w INTFB = 0 \<longrightarrow> regs (s_callback d q w) INTFB = 0) \<and>
    fst (readRegisterPair chip_io INTFA (world d)) AND NOT (registerImage s_GPINTENBit cfg) = 0 \<longrightarrow>
      fst (readRegisterPair chip_io INTFA (world (onInterrupt chip_io cfg d))) = 0) \<and>
   ((\<forall>q w. accesses (s_callback d q w) = accesses w) \<longrightarrow>
      accesses (world (onInterrupt chip_io cfg d)) =
        accesses (world d) @ [RegRead INTFA, RegRead INTFB] @
          map (\<lambda>p. RegRead (INTCAP_of p))
            (capturing_pins cfg (fst (readRegisterPair chip_io INTFA (world d))))) \<and>
   (capturing_pins cfg (fst (readRegisterPair chip_io INTFA (world d))) = [] \<longrightarrow>
      world (onInterrupt chip_io cfg d) =
        (world d)\<lparr>frame := Deselected,
          accesses := accesses (world d) @ [RegRead INTFA, RegRead INTFB]\<rparr>)"
proof (intro conjI impI)
  assume h: "(\<forall>q w. regs w INTFA = 0 \<longrightarrow> regs (s_callback d q w) INTFA = 0) \<and>
    (\<forall>q w. regs w INTFB = 0 \<longrightarrow> regs (s_callback d q w) INTFB = 0) \<and>
    fst (readRegisterPair chip_io INTFA (world d)) AND NOT (registerImage s_GPINTENBit cfg) = 0"
  show "fst (readRegisterPair chip_io INTFA (world (onInterrupt chip_io cfg d))) = 0"
    by (rule chip_onInterrupt_rearms) (simp_all add: h)
next
  assume "\<forall>q w. accesses (s_callback d q w) = accesses w"
  then show "accesses (world (onInterrupt chip_io cfg d)) =
        accesses (world d) @ [RegRead INTFA, RegRead INTFB] @
          map (\<lambda>p. RegRead (INTCAP_of p))
            (capturing_pins cfg (fst (readRegisterPair chip_io INTFA (world d))))"
    by (intro chip_onInterrupt_accesses) simp
next
  assume "capturing_pins cfg (fst (readRegisterPair chip_io INTFA (world d))) = []"
  then show "world (onInterrupt chip_io cfg d) =
        (world d)\<lparr>frame := Deselected,
          accesses := accesses (world d) @ [RegRead INTFA, RegRead INTFB]\<rparr>"
    by (simp add: onInterrupt_idle chip_read_INTF)
qed

text \<open>
  Witness for C2, amended: A2 is a switch and B1 an encoder phase A, both flagged and
  both enabled in the GPINTEN image, with the counting callbacks; the flag pair reads
  0x0402 before the call and zero after it. With two switches and no flag set the call
  only reads the flag pair.
\<close>

theorem rearm_by_capture_reads_witness:
  "fst (readRegisterPair chip_io INTFA (world (counting_driver (idle_sim regs_A2_B1)))) = 0x0402 \<and>
   registerImage s_GPINTENBit switch_and_encoder = 0x0402 \<and>
   fst (readRegisterPair chip_io INTFA
     (world (onInterrupt chip_io switch_and_encoder (counting_driver (idle_sim regs_A2_B1))))) = 0 \<and>
   accesses (world (onInterrupt chip_io switch_and_encoder (counting_driver (idle_sim regs_A2_B1)))) =
     [RegRead INTFA, RegRead INTFB, RegRead INTCAPB, RegRead INTCAPA] \<and>
   world (onInterrupt chip_io two_switches (counting_driver (idle_sim zero_regs))) =
     (idle_sim zero_regs)\<lparr>accesses := [RegRead INTFA, RegRead INTFB]\<rparr>"
proof -
  let ?d = "counting_driver (idle_sim regs_A2_B1)"
  let ?z = "counting_driver (idle_sim zero_regs)"
  have flags: "fst (readRegisterPair chip_io INTFA (world ?d)) = 0x0402"
    by (simp add: chip_read_INTF_num counting_driver_def idle_sim_def regs_A2_B1_def zero_regs_def
        register_defs)
  have img: "registerImage s_GPINTENBit switch_and_encoder = 0x0402"
    by (simp add: registerImage_def switch_and_encoder_def BV_def)
  have pins: "capturing_pins switch_and_encoder 0x0402 = [B1, A2]"
    by (simp add: capturing_pins_def pin_order_def switch_and_encoder_def interrupt_type_def)
  have cbA: "\<forall>q w. regs w INTFA = 0 \<longrightarrow> regs (s_callback ?d q w) INTFA = 0"
    by (simp add: counting_driver_def count_event_def)
  have cbB: "\<forall>q w. regs w INTFB = 0 \<longrightarrow> regs (s_callback ?d q w) INTFB = 0"
    by (simp add: counting_driver_def count_event_def)
  have quiet: "\<forall>q w. accesses (s_callback ?d q w) = accesses w"
    by (simp add: counting_driver_quiet)
  have en: "fst (readRegisterPair chip_io INTFA (world ?d)) AND NOT (registerImage s_GPINTENBit switch_and_encoder) = 0"
    by (simp add: flags img)
  have none: "capturing_pins two_switches (fst (readRegisterPair chip_io INTFA (world ?z))) = []"
    by (simp add: chip_read_INTF counting_driver_def idle_sim_def zero_regs_def capturing_pins_def)
  have acc0: "accesses (world ?d) = []"
    by (simp add: counting_driver_def idle_sim_def)
  have wz: "world ?z = idle_sim zero_regs"
    by (simp add: counting_driver_def)
  show ?thesis
    using rearm_by_capture_reads [of ?d switch_and_encoder] rearm_by_capture_reads [of ?z two_switches]
      cbA cbB quiet en none
    by (simp add: flags img pins acc0 wz INTCAP_of_def t_portA_simps) (simp add: idle_sim_def)
qed

section \<open>Dispatch determinism\<close>

text \<open>
  C3: whatever the transport, the configuration and the callbacks, one call of
  \<open>onInterrupt()\<close> calls \<open>notify()\<close> for exactly the pins whose bit is set in the
  flag word read at its start, each once, in the order B0..B7, A0..A7; the number of
  calls is the number of set bits of that word.
\<close>

theorem dispatch_determinism:
  "notified (onInterrupt io cfg d) =
     notified d @ filter (\<lambda>p. bit (fst (readRegisterPair io INTFA (world d))) (pinIdx p)) pin_order \<and>
   length (filter (\<lambda>p. bit (fst (readRegisterPair io INTFA (world d))) (pinIdx p)) pin_order) =
     card {n. bit (fst (readRegisterPair io INTFA (world d))) n}"
  by (simp add: onInterrupt_fold fold_dispatch_notified set_bits_count split: prod.splits)

section \<open>Duplicate configuration entries\<close>

text \<open>
  C4 does not hold of the code: \<open>checkConfig()\<close> is empty, so a pack that declares B0
  twice (as SWITCH, then as OUTPUT) is not rejected. \<open>init()\<close> runs all its register
  transactions, and B0 resolves to the first of its two entries.
\<close>

theorem duplicate_pin_config_accepted:
  "Pin_type duplicate_B0 B0 = SWITCH \<and>
   accesses (init sim_io duplicate_B0 True (idle_sim zero_regs)) =
     [RegWrite IOCON 0x62,
      RegWrite IODIRA 0, RegWrite IODIRB 1,
      RegWrite IPOLA 0, RegWrite IPOLB 1,
      RegWrite GPINTENA 0, RegWrite GPINTENB 1,
      RegWrite DEFVALA 0, RegWrite DEFVALB 0,
      RegWrite INTCONA 0, RegWrite INTCONB 0,
      RegWrite GPPUA 0, RegWrite GPPUB 1,
      RegRead INTCAPA, RegRead INTCAPB]"
  by (simp add: init_def registerImage_def duplicate_B0_def sim_eval BV_def
      SEQOP_def MIRROR_def INTPOL_def)

section \<open>Pin-type semantics table\<close>

text \<open>
  C5: the pin-type semantics table gives SWITCH and ROTENC_PHASE_A (encoder phase A)
  direction-is-input, polarity-inverted, interrupt-enabled and pull-up-enabled true and
  default-compare-value and interrupt-on-compare false; it gives ROTENC_PHASE_B (encoder
  phase B) direction-is-input, polarity-inverted and pull-up-enabled true and
  interrupt-enabled false.
\<close>

theorem pin_type_semantics_table:
  "s_IODIRBit SWITCH \<and> s_IPOLBit SWITCH \<and> s_GPINTENBit SWITCH \<and> s_GPPUBit SWITCH \<and>
   \<not> s_DEFVALBit SWITCH \<and> \<not> s_INTCONBit SWITCH \<and>
   s_IODIRBit ROTENC_PHASE_A \<and> s_IPOLBit ROTENC_PHASE_A \<and> s_GPINTENBit ROTENC_PHASE_A \<and>
   s_GPPUBit ROTENC_PHASE_A \<and> \<not> s_DEFVALBit ROTENC_PHASE_A \<and> \<not> s_INTCONBit ROTENC_PHASE_A \<and>
   s_IODIRBit ROTENC_PHASE_B \<and> s_IPOLBit ROTENC_PHASE_B \<and> s_GPPUBit ROTENC_PHASE_B \<and>
   \<not> s_GPINTENBit ROTENC_PHASE_B"
  by simp


section \<open>Reading encoder phase B\<close>

text \<open>
  C6: for every pin configured ROTENC_PHASE_B, \<open>read()\<close> on its handle returns the bit
  of that pin in the interrupt-capture register of its port, by one read of that
  register; the value returned does not depend on the live GPIO registers, whatever they
  are changed to.
\<close>

theorem phase_B_read_returns_capture:
  assumes "Pin_type cfg p = ROTENC_PHASE_B"
  shows "Pin_read sim_io (Pin_type cfg p) p w =
      Some (bit (regs w (INTCAP_of p)) (pinIdx p mod 8),
            w\<lparr>frame := Deselected, accesses := accesses w @ [RegRead (INTCAP_of p)]\<rparr>) \<and>
    map_option fst (Pin_read sim_io (Pin_type cfg p) p (w\<lparr>regs := (regs w)(GPIOA := ga, GPIOB := gb)\<rparr>)) =
      map_option fst (Pin_read sim_io (Pin_type cfg p) p w)"
  using INTCAP_of_not_GPIO [of p] by (simp add: assms sim_readINTCAP)

text \<open>Witness for C6: B2 is an encoder phase B whose capture bit is set.\<close>

theorem phase_B_read_returns_capture_witness:
  "Pin_type switch_and_encoder B2 = ROTENC_PHASE_B \<and>
   map_option fst (Pin_read sim_io (Pin_type switch_and_encoder B2) B2 (idle_sim regs_A2_B1)) =
     Some True \<and>
   map_option fst (Pin_read sim_io (Pin_type switch_and_encoder B2) B2
     ((idle_sim regs_A2_B1)\<lparr>regs := (regs (idle_sim regs_A2_B1))(GPIOA := 0xFF, GPIOB := 0)\<rparr>)) =
     Some True"
proof -
  have t: "Pin_type switch_and_encoder B2 = ROTENC_PHASE_B"
    by (simp add: switch_and_encoder_def)
  have v: "bit (regs (idle_sim regs_A2_B1) (INTCAP_of B2)) (pinIdx B2 mod 8)"
    by (simp add: idle_sim_def regs_A2_B1_def INTCAP_of_def t_portA_simps register_defs)
  show ?thesis
    using phase_B_read_returns_capture [OF t, of "idle_sim regs_A2_B1" "0xFF" 0] v
    by (simp add: t)
qed

section \<open>Unconfigured pins\<close>

text \<open>
  C7: for every configuration pack and every pin index with no declared entry in it, the
  resolved pin type is UNUSED, the six static members of its pin class are false, and
  the bit of that index is clear in each of the six register images that \<open>init()\<close>
  writes.
\<close>

theorem unconfigured_pin_is_unused:
  assumes "p \<notin> s_pinIdx ` set (entries cfg)"
  shows "Pin_type cfg p = UNUSED \<and>
    \<not> s_IODIRBit (Pin_type cfg p) \<and> \<not> s_IPOLBit (Pin_type cfg p) \<and>
    \<not> s_GPINTENBit (Pin_type cfg p) \<and> \<not> s_DEFVALBit (Pin_type cfg p) \<and>
    \<not> s_INTCONBit (Pin_type cfg p) \<and> \<not> s_GPPUBit (Pin_type cfg p) \<and>
    \<not> bit (registerImage s_IODIRBit cfg) (pinIdx p) \<and>
    \<not> bit (registerImage s_IPOLBit cfg) (pinIdx p) \<and>
    \<not> bit (registerImage s_GPINTENBit cfg) (pinIdx p) \<and>
    \<not> bit (registerImage s_DEFVALBit cfg) (pinIdx p) \<and>
    \<not> bit (registerImage s_INTCONBit cfg) (pinIdx p) \<and>
    \<not> bit (registerImage s_GPPUBit cfg) (pinIdx p)"
  by (simp add: bit_registerImage Pin_type_unconfigured [OF assms])

text \<open>Witness for C7: A0 has no entry in the pack of the two switches B0 and B1.\<close>

theorem unconfigured_pin_is_unused_witness:
  "A0 \<notin> s_pinIdx ` set (entries two_switches) \<and>
   Pin_type two_switches A0 = UNUSED \<and>
   \<not> bit (registerImage s_IODIRBit two_switches) (pinIdx A0) \<and>
   \<not> bit (registerImage s_IPOLBit two_switches) (pinIdx A0) \<and>
   \<not> bit (registerImage s_GPINTENBit two_switches) (pinIdx A0) \<and>
   \<not> bit (registerImage s_DEFVALBit two_switches) (pinIdx A0) \<and>
   \<not> bit (registerImage s_INTCONBit two_switches) (pinIdx A0) \<and>
   \<not> bit (registerImage s_GPPUBit two_switches) (pinIdx A0) \<and>
   registerImage s_IODIRBit two_switches = 0x0003"
proof -
  have h: "A0 \<notin> s_pinIdx ` set (entries two_switches)"
    by (simp add: two_switches_def)
  have img: "registerImage s_IODIRBit two_switches = 0x0003"
    by (simp add: registerImage_def two_switches_def BV_def)
  show ?thesis
    using unconfigured_pin_is_unused [OF h] h img by simp
qed

section \<open>Register-pair round trip\<close>

text \<open>
  C8: for every 16-bit value v and register-pair address r, writeRegisterPair(r, v)
  followed by readRegisterPair(r) against the simulated register file returns exactly v;
  the write transfers the high byte first (to register r) and the low byte second (to
  register r + 1), and the read reassembles (high << 8) + low.
\<close>

theorem register_pair_round_trip:
  "fst (readRegisterPair sim_io r (writeRegisterPair sim_io r v w)) = v \<and>
   accesses (writeRegisterPair sim_io r v w) =
     accesses w @ [RegWrite r (ucast (drop_bit 8 v)), RegWrite (r + 1) (ucast v)] \<and>
   fst (readRegisterPair sim_io r w) = push_bit 8 (ucast (regs w r)) + ucast (regs w (r + 1))"
  by (simp add: sim_writeRegisterPair sim_readRegisterPair join_bytes)

section \<open>Writing an output pin\<close>

text \<open>
  C9 does not hold of the code: the handle of a pin configured OUTPUT has no
  \<open>write\<close>. With A3 configured OUTPUT and the port-A latch holding 0x81, the only
  member function of the handle, \<open>notify()\<close>, leaves the device as it is, so the
  latch bit of A3 cannot be set through the handle. The read-modify-write that the claim
  describes is what the protected register-level accessor (\<open>writeOLATA\<close> for this
  pin) does, one read and one write giving 0x89, but no pin class calls it.
\<close>

theorem output_pin_without_write:
  "Pin_type output_A3 A3 = OUTPUT \<and>
   world (notify sim_io output_A3 A3 (counting_driver (idle_sim regs_latch))) = idle_sim regs_latch \<and>
   regs (idle_sim regs_latch) OLATA = 0x81 \<and>
   regs (latch_write sim_io A3 True (idle_sim regs_latch)) OLATA = 0x89 \<and>
   accesses (latch_write sim_io A3 True (idle_sim regs_latch)) =
     [RegRead OLATA, RegWrite OLATA 0x89]"
  by (simp add: output_A3_def notify_def counting_driver_def sim_latch_write OLAT_of_def
      t_portA_simps idle_sim_def regs_latch_def zero_regs_def BV_def register_defs)

section \<open>Registering a callback\<close>

text \<open>
  C10: for every two distinct pins p and q, a successful \<open>registerCallback\<close> on the
  handle of p (p is then of type SWITCH or ROTENC_PHASE_A) stores the callback in the
  slot of p and changes nothing else: the slot of q is as before, and \<open>notify()\<close> of q
  does after the registration what it did before it.
\<close>

theorem registerCallback_frame:
  assumes "p \<noteq> q" and "Pin_registerCallback (Pin_type cfg p) p callback d = Some d'"
  shows "s_callback d' p = callback \<and> s_callback d' q = s_callback d q \<and>
    world d' = world d \<and> notified d' = notified d \<and>
    notify io cfg q d' = (notify io cfg q d)\<lparr>s_callback := s_callback d'\<rparr>"
proof -
  have d': "d' = d\<lparr>s_callback := (s_callback d)(p := callback)\<rparr>"
    using Pin_registerCallback_Some [OF assms(2)] by simp
  have "((s_callback d)(p := callback)) q = s_callback d q"
    using assms(1) by simp
  then have "notify io cfg q (d\<lparr>s_callback := (s_callback d)(p := callback)\<rparr>) =
      (notify io cfg q d)\<lparr>s_callback := (s_callback d)(p := callback)\<rparr>"
    by (rule notify_update_s_callback)
  then show ?thesis
    using assms(1) by (simp add: d')
qed

text \<open>
  Witness for C10: B0 and B1 are switches with the counting callback; the clearing
  callback is registered for B0.
\<close>

theorem registerCallback_frame_witness:
  "B0 \<noteq> B1 \<and>
   Pin_registerCallback (Pin_type two_switches B0) B0 reset_count
     (counting_driver (idle_sim regs_B0_B1)) = Some (reset_registered (idle_sim regs_B0_B1)) \<and>
   s_callback (reset_registered (idle_sim regs_B0_B1)) B0 = reset_count \<and>
   s_callback (reset_registered (idle_sim regs_B0_B1)) B1 =
     s_callback (counting_driver (idle_sim regs_B0_B1)) B1 \<and>
   notify sim_io two_switches B1 (reset_registered (idle_sim regs_B0_B1)) =
     (notify sim_io two_switches B1 (counting_driver (idle_sim regs_B0_B1)))
       \<lparr>s_callback := s_callback (reset_registered (idle_sim regs_B0_B1))\<rparr>"
proof -
  have ne: "B0 \<noteq> B1" by simp
  have reg: "Pin_registerCallback (Pin_type two_switches B0) B0 reset_count
     (counting_driver (idle_sim regs_B0_B1)) = Some (reset_registered (idle_sim regs_B0_B1))"
    by (auto simp add: two_switches_def counting_driver_def reset_registered_def)
  show ?thesis
    using registerCallback_frame [OF ne reg, of sim_io] reg by simp
qed

end
